theory Spec2Isabelle
  imports Main "HOL-Library.Word"
begin

unbundle bit_operations_syntax

section \<open>Bytes, Python slices and the byte source\<close>

type_synonym byte = "8 word"
type_synonym bytes = "byte list"

text \<open>The exceptions raised by \<open>archive_zip.py\<close> and by the byte source it reads.\<close>

datatype error =
    BadZipFile string
  | OSError
  | ValueError string
  | KeyError
  | NotImplementedError string
  | AssertionError
  | AttributeError
  | EOFError
  | UnicodeDecodeError
  | UnsupportedOperation

text \<open>Python's \<open>xs[lo:hi]\<close>: a negative bound counts from the end, and every bound is
  clipped to the sequence.\<close>

definition slice_index :: "nat \<Rightarrow> int \<Rightarrow> nat" where
  "slice_index n i = (if i < 0 then nat (max (int n + i) 0) else min (nat i) n)"

definition slice :: "'a list \<Rightarrow> int \<Rightarrow> int \<Rightarrow> 'a list" where
  "slice xs lo hi =
     (let l = slice_index (length xs) lo; h = slice_index (length xs) hi
      in take (h - l) (drop l xs))"

definition slice_from :: "'a list \<Rightarrow> int \<Rightarrow> 'a list" where
  "slice_from xs lo = drop (slice_index (length xs) lo) xs"

definition slice_to :: "'a list \<Rightarrow> int \<Rightarrow> 'a list" where
  "slice_to xs hi = take (slice_index (length xs) hi) xs"

text \<open>\<open>bytes.rfind(sub)\<close>: the highest index at which \<open>sub\<close> occurs, or \<open>-1\<close>.
  \<open>rfind_from k\<close> tries the start indices \<open>k - 1, k - 2, \<dots>, 0\<close> in that order.\<close>

fun rfind_from :: "nat \<Rightarrow> 'a list \<Rightarrow> 'a list \<Rightarrow> int" where
  "rfind_from 0 sub xs = -1"
| "rfind_from (Suc i) sub xs =
     (if take (length sub) (drop i xs) = sub then int i else rfind_from i sub xs)"

definition rfind :: "'a list \<Rightarrow> 'a list \<Rightarrow> int" where
  "rfind xs sub = rfind_from (Suc (length xs) - length sub) sub xs"

text \<open>Little-endian unsigned integers, as \<open>struct.unpack("<H")\<close>, \<open>"<L"\<close> and \<open>"<Q"\<close>
  read them.\<close>

fun le :: "bytes \<Rightarrow> int" where
  "le [] = 0"
| "le (b # bs) = uint b + 256 * le bs"

text \<open>The byte source: a randomly seekable binary file. \<open>seek\<close> to a negative position
  raises \<open>OSError\<close>, as an operating-system file does; a position past the end is allowed
  and reads nothing there. \<open>close_calls\<close> counts the \<open>close()\<close> calls the source
  received.\<close>

record bfile =
  content :: bytes
  pos :: int
  can_seek :: bool
  close_calls :: nat

definition fseek :: "bfile \<Rightarrow> int \<Rightarrow> int \<Rightarrow> error + bfile" where
  "fseek f off whence =
     (if whence = 0 then (if off < 0 then Inl OSError else Inr (f\<lparr>pos := off\<rparr>))
      else if whence = 1 then
        (if pos f + off < 0 then Inl OSError else Inr (f\<lparr>pos := pos f + off\<rparr>))
      else if whence = 2 then
        (if int (length (content f)) + off < 0 then Inl OSError
         else Inr (f\<lparr>pos := int (length (content f)) + off\<rparr>))
      else Inl (ValueError ''invalid whence''))"

definition ftell :: "bfile \<Rightarrow> int" where
  "ftell f = pos f"

text \<open>\<open>read(n)\<close>; a negative \<open>n\<close> (Python's default \<open>-1\<close>) reads to the end.\<close>

definition fread :: "bfile \<Rightarrow> int \<Rightarrow> bytes \<times> bfile" where
  "fread f n =
     (let rest = drop (nat (pos f)) (content f);
          data = (if n < 0 then rest else take (nat n) rest)
      in (data, f\<lparr>pos := pos f + int (length data)\<rparr>))"

definition fclose :: "bfile \<Rightarrow> bfile" where
  "fclose f = f\<lparr>close_calls := Suc (close_calls f)\<rparr>"

section \<open>Record layouts\<close>

definition END_ARCHIVE_STRING :: bytes where
  "END_ARCHIVE_STRING = [0x50, 0x4b, 0x05, 0x06]"

definition END_ARCHIVE_SIZE :: int where
  "END_ARCHIVE_SIZE = 22"

definition CENTRAL_DIR_STRING :: bytes where
  "CENTRAL_DIR_STRING = [0x50, 0x4b, 0x01, 0x02]"

definition CENTRAL_DIR_SIZE :: int where
  "CENTRAL_DIR_SIZE = 46"

definition FILE_HEADER_STRING :: bytes where
  "FILE_HEADER_STRING = [0x50, 0x4b, 0x03, 0x04]"

definition FILE_HEADER_SIZE :: int where
  "FILE_HEADER_SIZE = 30"

definition END_ARCHIVE64_LOCATOR_STRING :: bytes where
  "END_ARCHIVE64_LOCATOR_STRING = [0x50, 0x4b, 0x06, 0x07]"

definition END_ARCHIVE64_LOCATOR_SIZE :: int where
  "END_ARCHIVE64_LOCATOR_SIZE = 20"

definition END_ARCHIVE64_STRING :: bytes where
  "END_ARCHIVE64_STRING = [0x50, 0x4b, 0x06, 0x06]"

definition END_ARCHIVE64_SIZE :: int where
  "END_ARCHIVE64_SIZE = 56"

definition ZIP_STORED :: int where
  "ZIP_STORED = 0"

definition MASK_ENCRYPTED :: int where
  "MASK_ENCRYPTED = 1"

definition MASK_COMPRESSED_PATCH :: int where
  "MASK_COMPRESSED_PATCH = 32"

definition MASK_STRONG_ENCRYPTION :: int where
  "MASK_STRONG_ENCRYPTION = 64"

definition MASK_UTF_FILENAME :: int where
  "MASK_UTF_FILENAME = 2048"

text \<open>The truth value of \<open>flags & mask\<close>.\<close>

definition flag_set :: "int \<Rightarrow> int \<Rightarrow> bool" where
  "flag_set flags m = (flags AND m \<noteq> 0)"

text \<open>A field of a fixed-layout record: \<open>len\<close> bytes at byte offset \<open>off\<close>.\<close>

definition field :: "bytes \<Rightarrow> nat \<Rightarrow> nat \<Rightarrow> bytes" where
  "field data off len = take len (drop off data)"

text \<open>The end-of-central-directory record: the eight items of
  \<open>struct.unpack("<4s4H2LH")\<close>, then the comment and the offset the record was found at,
  which \<open>_extract_end_archive\<close> appends.\<close>

record endrec =
  ecd_signature :: bytes
  ecd_disk_number :: int
  ecd_disk_start :: int
  ecd_entries_this_disk :: int
  ecd_entries_total :: int
  ecd_size :: int
  ecd_offset :: int
  ecd_comment_size :: int
  ecd_comment :: bytes
  ecd_location :: int

definition unpack_end_archive :: "bytes \<Rightarrow> bytes \<Rightarrow> int \<Rightarrow> endrec" where
  "unpack_end_archive data comment location =
     \<lparr>ecd_signature = field data 0 4,
      ecd_disk_number = le (field data 4 2),
      ecd_disk_start = le (field data 6 2),
      ecd_entries_this_disk = le (field data 8 2),
      ecd_entries_total = le (field data 10 2),
      ecd_size = le (field data 12 4),
      ecd_offset = le (field data 16 4),
      ecd_comment_size = le (field data 20 2),
      ecd_comment = comment,
      ecd_location = location\<rparr>"

section \<open>Directory locator\<close>

text \<open>\<open>_end_archive_update_zip64\<close>: probe for the ZIP64 locator before the record and, when
  it is there, overwrite the record's fields with the 64-bit values. The first \<open>seek\<close> is
  guarded by \<open>except OSError\<close>; the second is not.\<close>

definition end_archive_update_zip64 ::
  "bfile \<Rightarrow> int \<Rightarrow> endrec \<Rightarrow> (error + endrec) \<times> bfile" where
  "end_archive_update_zip64 fpin off er =
     (case fseek fpin (off - END_ARCHIVE64_LOCATOR_SIZE) 2 of
        Inl e \<Rightarrow> (if e = OSError then (Inr er, fpin) else (Inl e, fpin))
      | Inr f1 \<Rightarrow>
          let (data, f2) = fread f1 END_ARCHIVE64_LOCATOR_SIZE in
          if int (length data) \<noteq> END_ARCHIVE64_LOCATOR_SIZE then (Inr er, f2)
          else
            let sig = field data 0 4; diskno = le (field data 4 4);
                disks = le (field data 16 4) in
            if sig \<noteq> END_ARCHIVE64_LOCATOR_STRING then (Inr er, f2)
            else if diskno \<noteq> 0 \<or> disks > 1 then
              (Inl (BadZipFile ''zipfiles that span multiple disks are not supported''), f2)
            else
              (case fseek f2 (off - END_ARCHIVE64_LOCATOR_SIZE - END_ARCHIVE64_SIZE) 2 of
                 Inl e \<Rightarrow> (Inl e, f2)
               | Inr f3 \<Rightarrow>
                   let (data2, f4) = fread f3 END_ARCHIVE64_SIZE in
                   if int (length data2) \<noteq> END_ARCHIVE64_SIZE then (Inr er, f4)
                   else if field data2 0 4 \<noteq> END_ARCHIVE64_STRING then (Inr er, f4)
                   else
                     (Inr (er\<lparr>ecd_signature := field data2 0 4,
                               ecd_disk_number := le (field data2 16 4),
                               ecd_disk_start := le (field data2 20 4),
                               ecd_entries_this_disk := le (field data2 24 8),
                               ecd_entries_total := le (field data2 32 8),
                               ecd_size := le (field data2 40 8),
                               ecd_offset := le (field data2 48 8)\<rparr>), f4)))"

text \<open>What \<open>_extract_end_archive\<close> returns when it has a record: the record as
  \<open>_end_archive_update_zip64\<close> leaves it, or the exception that call raised.\<close>

definition return_endrec :: "(error + endrec) \<times> bfile \<Rightarrow> (error + endrec option) \<times> bfile" where
  "return_endrec r = (case r of (Inl e, f) \<Rightarrow> (Inl e, f) | (Inr er, f) \<Rightarrow> (Inr (Some er), f))"

text \<open>The second half of \<open>_extract_end_archive\<close> (from \<open>comment_max_start\<close> on): search
  the end of the file for the record's signature. \<open>None\<close> is Python's \<open>None\<close>.\<close>

definition extract_end_archive_scan ::
  "bfile \<Rightarrow> int \<Rightarrow> (error + endrec option) \<times> bfile" where
  "extract_end_archive_scan fpin filesize =
     (let comment_max_start = max (filesize - 65536 - END_ARCHIVE_SIZE) 0 in
      case fseek fpin comment_max_start 0 of
        Inl e \<Rightarrow> (Inl e, fpin)
      | Inr f1 \<Rightarrow>
          let (data, f2) = fread f1 (-1);
              start = rfind data END_ARCHIVE_STRING in
          if start \<ge> 0 then
            let recData = slice data start (start + END_ARCHIVE_SIZE) in
            if int (length recData) \<noteq> END_ARCHIVE_SIZE then (Inr None, f2)
            else
              let commentSize = le (field recData 20 2);
                  comment = slice data (start + END_ARCHIVE_SIZE)
                              (start + END_ARCHIVE_SIZE + commentSize);
                  er = unpack_end_archive recData comment (comment_max_start + start) in
              return_endrec
                (end_archive_update_zip64 f2 (comment_max_start + start - filesize) er)
          else (Inr None, f2))"

text \<open>\<open>_extract_end_archive\<close>: the record at the very end of the file when it has no
  comment, else the search above.\<close>

definition extract_end_archive :: "bfile \<Rightarrow> (error + endrec option) \<times> bfile" where
  "extract_end_archive fpin =
     (case fseek fpin 0 2 of
        Inl e \<Rightarrow> (Inl e, fpin)
      | Inr f0 \<Rightarrow>
          let filesize = ftell f0 in
          (case fseek f0 (- END_ARCHIVE_SIZE) 2 of
             Inl e \<Rightarrow> (if e = OSError then (Inr None, f0) else (Inl e, f0))
           | Inr f1 \<Rightarrow>
               let (data, f2) = fread f1 (-1) in
               if int (length data) = END_ARCHIVE_SIZE
                    \<and> slice data 0 4 = END_ARCHIVE_STRING
                    \<and> slice_from data (-2) = [0, 0]
               then
                 let er = unpack_end_archive data [] (filesize - END_ARCHIVE_SIZE) in
                 return_endrec (end_archive_update_zip64 f2 (- END_ARCHIVE_SIZE) er)
               else extract_end_archive_scan f2 filesize))"

section \<open>Directory parser\<close>

text \<open>\<open>ZipInfoRO\<close>, with the slots the class keeps. The type \<open>'n\<close> is Python's \<open>str\<close>.\<close>

record 'n ZipInfoRO =
  filename :: 'n
  flag_bits :: int
  header_offset :: int
  compress_size :: int
  file_size :: int

text \<open>The two codecs of \<open>bytes.decode\<close> the parser uses. Their tables are Python's, not
  this repository's, so they are parameters: \<open>utf-8\<close> can fail, \<open>cp437\<close> maps every
  byte.\<close>

record 'n codecs =
  decode_utf8 :: "bytes \<Rightarrow> 'n option"
  decode_cp437 :: "bytes \<Rightarrow> 'n"

definition decode_name :: "'n codecs \<Rightarrow> int \<Rightarrow> bytes \<Rightarrow> 'n option" where
  "decode_name cs flags raw =
     (if flag_set flags MASK_UTF_FILENAME then decode_utf8 cs raw
      else Some (decode_cp437 cs raw))"

text \<open>A Python \<open>dict\<close> in insertion order: assigning to a key that is present keeps its
  place and replaces its value.\<close>

fun dict_set :: "('k \<times> 'v) list \<Rightarrow> 'k \<Rightarrow> 'v \<Rightarrow> ('k \<times> 'v) list" where
  "dict_set [] k v = [(k, v)]"
| "dict_set ((k', v') # kvs) k v =
     (if k' = k then (k, v) # kvs else (k', v') # dict_set kvs k v)"

definition dict_get :: "('k \<times> 'v) list \<Rightarrow> 'k \<Rightarrow> 'v option" where
  "dict_get kvs k = map_of kvs k"

text \<open>The \<open>while total < size_cd\<close> loop of \<open>_read_contents\<close>. \<open>fp\<close> is what is left of the
  \<open>BytesIO\<close> over the directory's bytes; \<open>tbl\<close> is \<open>self._name_to_info\<close>.\<close>

lemma le_nonneg: "0 \<le> le bs"
  by (induction bs) auto

function read_entries ::
  "'n codecs \<Rightarrow> int \<Rightarrow> int \<Rightarrow> bytes \<Rightarrow> int \<Rightarrow> ('n \<times> 'n ZipInfoRO) list
     \<Rightarrow> error + ('n \<times> 'n ZipInfoRO) list" where
  "read_entries cs size_cd concat_off fp tot tbl =
     (if tot < size_cd then
        let cdir = take 46 fp; fp1 = drop 46 fp in
        if int (length cdir) \<noteq> CENTRAL_DIR_SIZE then
          Inl (BadZipFile ''Truncated central directory'')
        else if field cdir 0 4 \<noteq> CENTRAL_DIR_STRING then
          Inl (BadZipFile ''Bad magic number for central directory'')
        else
          let filename_length = le (field cdir 28 2);
              raw = take (nat filename_length) fp1;
              fp2 = drop (nat filename_length) fp1;
              flags = le (field cdir 8 2)
          in case decode_name cs flags raw of
               None \<Rightarrow> Inl UnicodeDecodeError
             | Some fname \<Rightarrow>
                 let extra_length = le (field cdir 30 2);
                     fp3 = drop (nat extra_length) fp2;
                     comment_length = le (field cdir 32 2);
                     fp4 = drop (nat comment_length) fp3;
                     compress_type = le (field cdir 10 2)
                 in if compress_type \<noteq> ZIP_STORED then Inl AssertionError
                    else
                      let zinfo = \<lparr>filename = fname, flag_bits = flags,
                                   header_offset = le (field cdir 42 4) + concat_off,
                                   compress_size = le (field cdir 20 4),
                                   file_size = le (field cdir 24 4)\<rparr>
                      in read_entries cs size_cd concat_off fp4
                           (tot + CENTRAL_DIR_SIZE + filename_length + extra_length
                              + comment_length)
                           (dict_set tbl fname zinfo)
      else Inr tbl)"
  by pat_completeness auto
termination
proof (relation "measure (\<lambda>(cs, size_cd, concat_off, fp, tot, tbl). nat (size_cd - tot))",
    goal_cases)
  case 1
  show ?case by simp
next
  case (2 cs size_cd concat_off fp tot tbl cdir fp1 fl raw fp2 flags fname el fp3 cl fp4)
  have "0 \<le> fl" "0 \<le> el" "0 \<le> cl"
    using 2 by (simp_all add: le_nonneg)
  with 2 show ?case
    by (simp add: CENTRAL_DIR_SIZE_def)
qed

declare read_entries.simps [simp del]

section \<open>Archive handle, shared file handle\<close>

text \<open>\<open>ZipFileRO\<close>. \<open>file_present\<close> is \<open>self._file is not None\<close>; the file object itself is
  shared with every \<open>_SharedFileRO\<close>, so it lives beside the archive in the \<open>world\<close>.
  The slot \<open>_file_name\<close> is only printed by \<open>__repr__\<close> and is left out.\<close>

record 'n ZipFileRO =
  start_dir :: int
  name_to_info :: "('n \<times> 'n ZipInfoRO) list"
  file_passed :: bool
  file_present :: bool
  file_ref_count :: int

record 'n world =
  zf :: "'n ZipFileRO"
  fp :: bfile

text \<open>\<open>ZipFileRO._close\<close>: give one reference back; the last one closes the file, unless
  the file was passed in.\<close>

definition ZipFileRO__close :: "'n world \<Rightarrow> (error + unit) \<times> 'n world" where
  "ZipFileRO__close w =
     (if \<not> file_ref_count (zf w) > 0 then (Inl AssertionError, w)
      else
        let w1 = w\<lparr>zf := (zf w)\<lparr>file_ref_count := file_ref_count (zf w) - 1\<rparr>\<rparr> in
        if file_ref_count (zf w1) = 0 \<and> \<not> file_passed (zf w1)
        then (Inr (), w1\<lparr>fp := fclose (fp w1)\<rparr>)
        else (Inr (), w1))"

text \<open>\<open>ZipFileRO._read_contents\<close>. When it raises, \<open>__init__\<close> drops the object, so the
  entries stored before the failure are not kept in the model.\<close>

definition read_contents :: "'n codecs \<Rightarrow> 'n world \<Rightarrow> (error + unit) \<times> 'n world" where
  "read_contents cs w =
     (case extract_end_archive (fp w) of
        (Inl e, f1) \<Rightarrow>
          (Inl (if e = OSError then BadZipFile ''File is not a zip file'' else e), w\<lparr>fp := f1\<rparr>)
      | (Inr None, f1) \<Rightarrow> (Inl (BadZipFile ''File is not a zip file''), w\<lparr>fp := f1\<rparr>)
      | (Inr (Some er), f1) \<Rightarrow>
          let size_cd = ecd_size er;
              offset_cd = ecd_offset er;
              concat0 = ecd_location er - size_cd - offset_cd;
              concat_off = (if ecd_signature er = END_ARCHIVE64_STRING
                            then concat0 - (END_ARCHIVE64_SIZE + END_ARCHIVE64_LOCATOR_SIZE)
                            else concat0);
              w1 = w\<lparr>fp := f1, zf := (zf w)\<lparr>start_dir := offset_cd + concat_off\<rparr>\<rparr>
          in if start_dir (zf w1) < 0 then
               (Inl (BadZipFile ''Bad offset for central directory''), w1)
             else
               (case fseek f1 (start_dir (zf w1)) 0 of
                  Inl e \<Rightarrow> (Inl e, w1)
                | Inr f2 \<Rightarrow>
                    let (data, f3) = fread f2 size_cd in
                    (case read_entries cs size_cd concat_off data 0 (name_to_info (zf w1)) of
                       Inl e \<Rightarrow> (Inl e, w1\<lparr>fp := f3\<rparr>)
                     | Inr tbl \<Rightarrow>
                         (Inr (), w1\<lparr>fp := f3, zf := (zf w1)\<lparr>name_to_info := tbl\<rparr>\<rparr>))))"

text \<open>\<open>ZipFileRO.__init__\<close>. \<open>passed\<close> tells whether the caller passed an open file
  (\<open>True\<close>) or a path that \<open>__init__\<close> opened itself; \<open>f\<close> is that file. The slot
  \<open>_start_dir\<close> has no value before \<open>_read_contents\<close> assigns it.\<close>

definition ZipFileRO_init :: "'n codecs \<Rightarrow> bool \<Rightarrow> bfile \<Rightarrow> (error + unit) \<times> 'n world" where
  "ZipFileRO_init cs passed f =
     (let w0 = \<lparr>zf = \<lparr>start_dir = 0, name_to_info = [], file_passed = passed,
                        file_present = True, file_ref_count = 1\<rparr>,
                   fp = f\<rparr>
      in case read_contents cs w0 of
           (Inr u, w1) \<Rightarrow> (Inr (), w1)
         | (Inl e, w1) \<Rightarrow>
             (case ZipFileRO__close (w1\<lparr>zf := (zf w1)\<lparr>file_present := False\<rparr>\<rparr>) of
                (Inl e', w2) \<Rightarrow> (Inl e', w2)
              | (Inr u, w2) \<Rightarrow> (Inl e, w2)))"

definition namelist :: "'n world \<Rightarrow> error + 'n list" where
  "namelist w = Inr (map fst (name_to_info (zf w)))"

definition infolist :: "'n world \<Rightarrow> error + 'n ZipInfoRO list" where
  "infolist w = Inr (map snd (name_to_info (zf w)))"

definition getinfo :: "'n world \<Rightarrow> 'n \<Rightarrow> error + 'n ZipInfoRO" where
  "getinfo w nm =
     (case dict_get (name_to_info (zf w)) nm of None \<Rightarrow> Inl KeyError | Some info \<Rightarrow> Inr info)"

text \<open>\<open>ZipFileRO.close\<close> (also what \<open>__del__\<close> and \<open>__exit__\<close> call).\<close>

definition ZipFileRO_close :: "'n world \<Rightarrow> (error + unit) \<times> 'n world" where
  "ZipFileRO_close w =
     (if \<not> file_present (zf w) then (Inr (), w)
      else ZipFileRO__close (w\<lparr>zf := (zf w)\<lparr>file_present := False\<rparr>\<rparr>))"

text \<open>\<open>_SharedFileRO\<close>: \<open>sf_file\<close> is \<open>self._file is not None\<close>, \<open>sf_pos\<close> is \<open>self._pos\<close>; the
  callback \<open>self._close\<close> is the archive's \<open>_close\<close>. A method called on the \<open>None\<close> file
  raises \<open>AttributeError\<close>.\<close>

record SharedFileRO =
  sf_file :: bool
  sf_pos :: int

definition SharedFileRO_tell :: "SharedFileRO \<Rightarrow> int" where
  "SharedFileRO_tell s = sf_pos s"

definition SharedFileRO_seek ::
  "SharedFileRO \<Rightarrow> 'n world \<Rightarrow> int \<Rightarrow> int \<Rightarrow> (error + int) \<times> SharedFileRO \<times> 'n world" where
  "SharedFileRO_seek s w off whence =
     (if \<not> sf_file s then (Inl AttributeError, s, w)
      else case fseek (fp w) off whence of
             Inl e \<Rightarrow> (Inl e, s, w)
           | Inr f1 \<Rightarrow> (Inr (ftell f1), s\<lparr>sf_pos := ftell f1\<rparr>, w\<lparr>fp := f1\<rparr>))"

definition SharedFileRO_read ::
  "SharedFileRO \<Rightarrow> 'n world \<Rightarrow> int \<Rightarrow> (error + bytes) \<times> SharedFileRO \<times> 'n world" where
  "SharedFileRO_read s w n =
     (if \<not> sf_file s then (Inl AttributeError, s, w)
      else case fseek (fp w) (sf_pos s) 0 of
             Inl e \<Rightarrow> (Inl e, s, w)
           | Inr f1 \<Rightarrow>
               let (data, f2) = fread f1 n in
               (Inr data, s\<lparr>sf_pos := ftell f2\<rparr>, w\<lparr>fp := f2\<rparr>))"

definition SharedFileRO_close ::
  "SharedFileRO \<Rightarrow> 'n world \<Rightarrow> (error + unit) \<times> SharedFileRO \<times> 'n world" where
  "SharedFileRO_close s w =
     (if sf_file s then
        (case ZipFileRO__close w of (r, w1) \<Rightarrow> (r, s\<lparr>sf_file := False\<rparr>, w1))
      else (Inr (), s, w))"

section \<open>Entry reader\<close>

text \<open>\<open>ZipFilePartRO\<close>. \<open>compress_type\<close> is the attribute \<open>_compress_type\<close>, which
  \<open>seek\<close> reads: \<open>None\<close> is the attribute never assigned, and reading it then raises
  \<open>AttributeError\<close>. \<open>closed\<close> is the flag of \<open>io.BufferedIOBase\<close>.\<close>

record 'n ZipFilePartRO =
  fileobj :: SharedFileRO
  close_fileobj :: bool
  compress_left :: int
  left :: int
  eof :: bool
  readbuffer :: bytes
  offset :: int
  name :: 'n
  seekable :: bool
  orig_compress_start :: int
  orig_compress_size :: int
  orig_file_size :: int
  closed :: bool
  compress_type :: "int option"

definition MAX_N :: int where
  "MAX_N = 2 ^ 30"

definition MIN_READ_SIZE :: int where
  "MIN_READ_SIZE = 4096"

definition MAX_SEEK_READ :: int where
  "MAX_SEEK_READ = 2 ^ 24"

text \<open>\<open>ZipFilePartRO.__init__\<close>. It assigns no \<open>_compress_type\<close>: that line of the
  source is commented out.\<close>

definition ZipFilePartRO_init ::
  "SharedFileRO \<Rightarrow> 'n ZipInfoRO \<Rightarrow> bool \<Rightarrow> 'n world \<Rightarrow> error + 'n ZipFilePartRO" where
  "ZipFilePartRO_init fo zinfo cf w =
     (if can_seek (fp w) then
        Inr \<lparr>fileobj = fo, close_fileobj = cf,
             compress_left = compress_size zinfo, left = file_size zinfo,
             eof = False, readbuffer = [], offset = 0, name = filename zinfo,
             seekable = True, orig_compress_start = SharedFileRO_tell fo,
             orig_compress_size = compress_size zinfo, orig_file_size = file_size zinfo,
             closed = False, compress_type = None\<rparr>
      else Inl (NotImplementedError ''not expecting an unseekable file''))"

type_synonym ('a, 'n) rres = "(error + 'a) \<times> 'n ZipFilePartRO \<times> 'n world"

definition read2 :: "'n ZipFilePartRO \<Rightarrow> 'n world \<Rightarrow> int \<Rightarrow> (bytes, 'n) rres" where
  "read2 r w n =
     (if compress_left r \<le> 0 then (Inr [], r, w)
      else
        let n1 = max n MIN_READ_SIZE; n2 = min n1 (compress_left r) in
        case SharedFileRO_read (fileobj r) w n2 of
          (Inl e, s, w1) \<Rightarrow> (Inl e, r\<lparr>fileobj := s\<rparr>, w1)
        | (Inr data, s, w1) \<Rightarrow>
            let r1 = r\<lparr>fileobj := s, compress_left := compress_left r - int (length data)\<rparr> in
            if data = [] then (Inl EOFError, r1, w1) else (Inr data, r1, w1))"

definition read1 :: "'n ZipFilePartRO \<Rightarrow> 'n world \<Rightarrow> int \<Rightarrow> (bytes, 'n) rres" where
  "read1 r w n =
     (if eof r \<or> n \<le> 0 then (Inr [], r, w)
      else case read2 r w n of
             (Inl e, r1, w1) \<Rightarrow> (Inl e, r1, w1)
           | (Inr data, r1, w1) \<Rightarrow>
               let r2 = r1\<lparr>eof := compress_left r1 \<le> 0\<rparr>;
                   data1 = slice_to data (left r2);
                   r3 = r2\<lparr>left := left r2 - int (length data1)\<rparr>;
                   r4 = (if left r3 \<le> 0 then r3\<lparr>eof := True\<rparr> else r3)
               in (Inr data1, r4, w1))"

text \<open>What is left to read from the file before \<open>_eof\<close> is set: the measure under which
  the two loops of \<open>read\<close> end.\<close>

definition read_fuel :: "'n ZipFilePartRO \<Rightarrow> nat" where
  "read_fuel r = (if eof r then 0 else Suc (nat (compress_left r)))"

lemma read1_fuel:
  assumes "\<not> eof r" and "0 < n" and "read1 r w n = (Inr data, r1, w1)"
  shows "read_fuel r1 < read_fuel r"
proof (cases "compress_left r \<le> 0")
  case True
  with assms show ?thesis
    by (auto simp: read1_def read2_def read_fuel_def Let_def split: if_splits)
next
  case False
  with assms show ?thesis
    by (auto simp: read1_def read2_def read_fuel_def Let_def
        split: if_splits prod.splits sum.splits)
qed

text \<open>The loop \<open>while not self._eof: buf += self._read1(self.MAX_N)\<close>.\<close>

function read_all_loop :: "'n ZipFilePartRO \<Rightarrow> 'n world \<Rightarrow> bytes \<Rightarrow> (bytes, 'n) rres" where
  "read_all_loop r w buf =
     (if \<not> eof r then
        (case read1 r w MAX_N of
           (Inl e, r1, w1) \<Rightarrow> (Inl e, r1, w1)
         | (Inr data, r1, w1) \<Rightarrow> read_all_loop r1 w1 (buf @ data))
      else (Inr buf, r, w))"
  by pat_completeness auto
termination
proof (relation "measure (\<lambda>(r, w, buf). read_fuel r)", goal_cases)
  case 1
  show ?case by simp
next
  case (2 r w buf x y data r1 w1)
  then have "read1 r w MAX_N = (Inr data, r1, w1)"
    by (metis prod.collapse prod.inject)
  with 2 have "read_fuel r1 < read_fuel r"
    by (intro read1_fuel [of r MAX_N w data r1 w1]) (simp_all add: MAX_N_def)
  then show ?case by simp
qed

declare read_all_loop.simps [simp del]

text \<open>The loop \<open>while n > 0 and not self._eof\<close> of a bounded \<open>read\<close>.\<close>

function read_loop :: "'n ZipFilePartRO \<Rightarrow> 'n world \<Rightarrow> int \<Rightarrow> bytes \<Rightarrow> (bytes, 'n) rres" where
  "read_loop r w n buf =
     (if n > 0 \<and> \<not> eof r then
        (case read1 r w n of
           (Inl e, r1, w1) \<Rightarrow> (Inl e, r1, w1)
         | (Inr data, r1, w1) \<Rightarrow>
             if n < int (length data) then
               (Inr (buf @ slice_to data n), r1\<lparr>readbuffer := data, offset := n\<rparr>, w1)
             else read_loop r1 w1 (n - int (length data)) (buf @ data))
      else (Inr buf, r, w))"
  by pat_completeness auto
termination
proof (relation "measure (\<lambda>(r, w, n, buf). read_fuel r)", goal_cases)
  case 1
  show ?case by simp
next
  case (2 r w n buf x y data r1 w1)
  then have "read1 r w n = (Inr data, r1, w1)"
    by (metis prod.collapse prod.inject)
  with 2 have "read_fuel r1 < read_fuel r"
    by (intro read1_fuel [of r n w data r1 w1]) simp_all
  then show ?case by simp
qed

declare read_loop.simps [simp del]

text \<open>\<open>ZipFilePartRO.read\<close>; \<open>n\<close> negative stands for the default \<open>-1\<close> and for
  \<open>None\<close>.\<close>

definition ZipFilePartRO_read ::
  "'n ZipFilePartRO \<Rightarrow> 'n world \<Rightarrow> int \<Rightarrow> (bytes, 'n) rres" where
  "ZipFilePartRO_read r w n =
     (if closed r then (Inl (ValueError ''read from closed file.''), r, w)
      else if n < 0 then
        read_all_loop (r\<lparr>readbuffer := [], offset := 0\<rparr>) w
          (slice_from (readbuffer r) (offset r))
      else
        let end = n + offset r in
        if end < int (length (readbuffer r)) then
          (Inr (slice (readbuffer r) (offset r) end), r\<lparr>offset := end\<rparr>, w)
        else
          read_loop (r\<lparr>readbuffer := [], offset := 0\<rparr>) w
            (end - int (length (readbuffer r)))
            (slice_from (readbuffer r) (offset r)))"

text \<open>The position \<open>tell\<close> computes, and \<open>ZipFilePartRO.tell\<close> with its checks.\<close>

definition filepos :: "'n ZipFilePartRO \<Rightarrow> int" where
  "filepos r = orig_file_size r - left r - int (length (readbuffer r)) + offset r"

definition ZipFilePartRO_tell :: "'n ZipFilePartRO \<Rightarrow> error + int" where
  "ZipFilePartRO_tell r =
     (if closed r then Inl (ValueError ''tell on closed file.'')
      else if \<not> seekable r then Inl UnsupportedOperation
      else Inr (filepos r))"

text \<open>The loop \<open>while read_offset > 0\<close> that ends \<open>seek\<close>, with the \<open>return self.tell()\<close>
  after it.\<close>

function seek_loop :: "'n ZipFilePartRO \<Rightarrow> 'n world \<Rightarrow> int \<Rightarrow> (int, 'n) rres" where
  "seek_loop r w read_offset =
     (if read_offset > 0 then
        let read_len = min MAX_SEEK_READ read_offset in
        (case ZipFilePartRO_read r w read_len of
           (Inl e, r1, w1) \<Rightarrow> (Inl e, r1, w1)
         | (Inr data, r1, w1) \<Rightarrow> seek_loop r1 w1 (read_offset - read_len))
      else (ZipFilePartRO_tell r, r, w))"
  by pat_completeness auto
termination
  by (relation "measure (\<lambda>(r, w, read_offset). nat read_offset)")
     (auto simp: MAX_SEEK_READ_def)

declare seek_loop.simps [simp del]

text \<open>\<open>ZipFilePartRO.seek\<close>. The second branch of the source tests
  \<open>self._compress_type == ZIP_STORED and read_offset > 0\<close>: the attribute is read first.\<close>

definition ZipFilePartRO_seek ::
  "'n ZipFilePartRO \<Rightarrow> 'n world \<Rightarrow> int \<Rightarrow> int \<Rightarrow> (int, 'n) rres" where
  "ZipFilePartRO_seek r w off whence =
     (if closed r then (Inl (ValueError ''seek on closed file.''), r, w)
      else if \<not> seekable r then (Inl UnsupportedOperation, r, w)
      else if whence \<noteq> 0 \<and> whence \<noteq> 1 \<and> whence \<noteq> 2 then
        (Inl (ValueError ''whence must be os.SEEK_SET (0), os.SEEK_CUR (1), or os.SEEK_END (2)''),
         r, w)
      else
        let curr_pos = filepos r;
            new_pos0 = (if whence = 0 then off
                        else if whence = 1 then curr_pos + off
                        else orig_file_size r + off);
            new_pos1 = (if new_pos0 > orig_file_size r then orig_file_size r else new_pos0);
            new_pos = (if new_pos1 < 0 then 0 else new_pos1);
            read_offset = new_pos - curr_pos;
            buff_offset = read_offset + offset r
        in
          if buff_offset \<ge> 0 \<and> buff_offset < int (length (readbuffer r)) then
            seek_loop (r\<lparr>offset := buff_offset\<rparr>) w 0
          else
            (case compress_type r of
               None \<Rightarrow> (Inl AttributeError, r, w)
             | Some ct \<Rightarrow>
                 if ct = ZIP_STORED \<and> read_offset > 0 then
                   let read_offset1 = read_offset - (int (length (readbuffer r)) - offset r) in
                   (case SharedFileRO_seek (fileobj r) w read_offset1 1 of
                      (Inl e, s, w1) \<Rightarrow> (Inl e, r\<lparr>fileobj := s\<rparr>, w1)
                    | (Inr p, s, w1) \<Rightarrow>
                        seek_loop
                          (r\<lparr>fileobj := s, left := left r - read_offset1,
                             readbuffer := [], offset := 0\<rparr>) w1 0)
                 else if read_offset < 0 then
                   (case SharedFileRO_seek (fileobj r) w (orig_compress_start r) 0 of
                      (Inl e, s, w1) \<Rightarrow> (Inl e, r\<lparr>fileobj := s\<rparr>, w1)
                    | (Inr p, s, w1) \<Rightarrow>
                        seek_loop
                          (r\<lparr>fileobj := s, compress_left := orig_compress_size r,
                             left := orig_file_size r, readbuffer := [], offset := 0,
                             eof := False\<rparr>) w1 new_pos)
                 else seek_loop r w read_offset))"

text \<open>\<open>ZipFilePartRO.close\<close>: the \<open>finally\<close> clause sets \<open>closed\<close> whatever the shared
  file's \<open>close\<close> did.\<close>

definition ZipFilePartRO_close :: "'n ZipFilePartRO \<Rightarrow> 'n world \<Rightarrow> (unit, 'n) rres" where
  "ZipFilePartRO_close r w =
     (if close_fileobj r then
        (case SharedFileRO_close (fileobj r) w of
           (res, s, w1) \<Rightarrow> (res, r\<lparr>fileobj := s, closed := True\<rparr>, w1))
      else (Inr (), r\<lparr>closed := True\<rparr>, w))"

section \<open>Opening an entry\<close>

text \<open>The \<open>try\<close> block of \<open>ZipFileRO.open\<close>: check the local file header at the entry's
  offset, then build the reader.\<close>

definition open_checks ::
  "'n codecs \<Rightarrow> 'n ZipInfoRO \<Rightarrow> SharedFileRO \<Rightarrow> 'n world
     \<Rightarrow> (error + 'n ZipFilePartRO) \<times> SharedFileRO \<times> 'n world" where
  "open_checks cs zinfo zef_file w =
     (case SharedFileRO_read zef_file w FILE_HEADER_SIZE of
        (Inl e, s1, w1) \<Rightarrow> (Inl e, s1, w1)
      | (Inr fheader, s1, w1) \<Rightarrow>
          if int (length fheader) \<noteq> FILE_HEADER_SIZE then
            (Inl (BadZipFile ''Truncated file header''), s1, w1)
          else if field fheader 0 4 \<noteq> FILE_HEADER_STRING then
            (Inl (BadZipFile ''Bad magic number for file header''), s1, w1)
          else
            (case SharedFileRO_read s1 w1 (le (field fheader 26 2)) of
               (Inl e, s2, w2) \<Rightarrow> (Inl e, s2, w2)
             | (Inr fname, s2, w2) \<Rightarrow>
                 (case (if le (field fheader 28 2) \<noteq> 0
                        then SharedFileRO_seek s2 w2 (le (field fheader 28 2)) 1
                        else (Inr 0, s2, w2)) of
                    (Inl e, s3, w3) \<Rightarrow> (Inl e, s3, w3)
                  | (Inr p, s3, w3) \<Rightarrow>
                      if flag_set (flag_bits zinfo) MASK_COMPRESSED_PATCH then
                        (Inl (NotImplementedError ''compressed patched data (flag bit 5)''),
                         s3, w3)
                      else if flag_set (flag_bits zinfo) MASK_STRONG_ENCRYPTION then
                        (Inl (NotImplementedError ''strong encryption (flag bit 6)''), s3, w3)
                      else
                        (case decode_name cs (le (field fheader 6 2)) fname of
                           None \<Rightarrow> (Inl UnicodeDecodeError, s3, w3)
                         | Some fname_str \<Rightarrow>
                             if fname_str \<noteq> filename zinfo then
                               (Inl (BadZipFile
                                  ''File name in directory and header differ.''), s3, w3)
                             else if flag_set (flag_bits zinfo) MASK_ENCRYPTED then
                               (Inl (NotImplementedError []), s3, w3)
                             else
                               (case ZipFilePartRO_init s3 zinfo True w3 of
                                  Inl e \<Rightarrow> (Inl e, s3, w3)
                                | Inr r \<Rightarrow> (Inr r, s3, w3))))))"

text \<open>\<open>ZipFileRO.open\<close>; the argument is a name (\<open>Inl\<close>) or a \<open>ZipInfoRO\<close> (\<open>Inr\<close>). The
  \<open>except\<close> clause closes the shared file and raises again.\<close>

definition ZipFileRO_open ::
  "'n codecs \<Rightarrow> 'n world \<Rightarrow> 'n + 'n ZipInfoRO \<Rightarrow> (error + 'n ZipFilePartRO) \<times> 'n world" where
  "ZipFileRO_open cs w nm =
     (if \<not> file_present (zf w) then
        (Inl (ValueError ''Attempt to use ZIP archive that was already closed''), w)
      else
        case (case nm of Inr zi \<Rightarrow> Inr zi | Inl n \<Rightarrow> getinfo w n) of
          Inl e \<Rightarrow> (Inl e, w)
        | Inr zinfo \<Rightarrow>
            let w1 = w\<lparr>zf := (zf w)\<lparr>file_ref_count := file_ref_count (zf w) + 1\<rparr>\<rparr>;
                zef_file = \<lparr>sf_file = True, sf_pos = header_offset zinfo\<rparr>
            in case open_checks cs zinfo zef_file w1 of
                 (Inr r, s, w2) \<Rightarrow> (Inr r, w2)
               | (Inl e, s, w2) \<Rightarrow>
                   (case SharedFileRO_close s w2 of
                      (Inl e', s', w3) \<Rightarrow> (Inl e', w3)
                    | (Inr u, s', w3) \<Rightarrow> (Inl e, w3)))"

section \<open>Example archives\<close>

text \<open>A codec pair for names in ASCII, where \<open>utf-8\<close> and \<open>cp437\<close> agree: each byte is the
  character of its code.\<close>

definition ascii :: "bytes \<Rightarrow> string" where
  "ascii bs = map (\<lambda>b. char_of (uint b)) bs"

definition ascii_codecs :: "string codecs" where
  "ascii_codecs = \<lparr>decode_utf8 = (\<lambda>bs. Some (ascii bs)), decode_cp437 = ascii\<rparr>"

text \<open>A stored archive with the one entry \<open>a.txt\<close>, of contents \<open>hello\<close>: local file
  header, name and data (40 bytes), central directory entry (51 bytes), end record.\<close>

definition small_zip :: bytes where
  "small_zip =
  [0x50, 0x4b, 0x03, 0x04, 0x14, 0x00, 0x00, 0x00, 0x00, 0x00, 0x00, 0x00,
   0x21, 0x00, 0x86, 0xa6, 0x10, 0x36, 0x05, 0x00, 0x00, 0x00, 0x05, 0x00,
   0x00, 0x00, 0x05, 0x00, 0x00, 0x00, 0x61, 0x2e, 0x74, 0x78, 0x74, 0x68,
   0x65, 0x6c, 0x6c, 0x6f, 0x50, 0x4b, 0x01, 0x02, 0x14, 0x03, 0x14, 0x00,
   0x00, 0x00, 0x00, 0x00, 0x00, 0x00, 0x21, 0x00, 0x86, 0xa6, 0x10, 0x36,
   0x05, 0x00, 0x00, 0x00, 0x05, 0x00, 0x00, 0x00, 0x05, 0x00, 0x00, 0x00,
   0x00, 0x00, 0x00, 0x00, 0x00, 0x00, 0x00, 0x00, 0xa4, 0x01, 0x00, 0x00,
   0x00, 0x00, 0x61, 0x2e, 0x74, 0x78, 0x74, 0x50, 0x4b, 0x05, 0x06, 0x00,
   0x00, 0x00, 0x00, 0x01, 0x00, 0x01, 0x00, 0x33, 0x00, 0x00, 0x00, 0x28,
   0x00, 0x00, 0x00, 0x00, 0x00]"

definition small_file :: bfile where
  "small_file = \<lparr>content = small_zip, pos = 0, can_seek = True, close_calls = 0\<rparr>"

definition small_info :: "string ZipInfoRO" where
  "small_info = \<lparr>filename = ''a.txt'', flag_bits = 0, header_offset = 0,
     compress_size = 5, file_size = 5\<rparr>"

text \<open>The archive handle and the file as \<open>ZipFileRO(path)\<close> leaves them.\<close>

definition small_world :: "string world" where
  "small_world =
     \<lparr>zf = \<lparr>start_dir = 40, name_to_info = [(''a.txt'', small_info)], file_passed = False,
             file_present = True, file_ref_count = 1\<rparr>,
      fp = small_file\<lparr>pos := 91\<rparr>\<rparr>"

lemma small_init: "ZipFileRO_init ascii_codecs False small_file = (Inr (), small_world)"
  by code_simp

section \<open>Use after close\<close>

lemma ZipFileRO_close_not_present: "\<not> file_present (zf (snd (ZipFileRO_close w)))"
  by (simp add: ZipFileRO_close_def ZipFileRO__close_def Let_def)

lemma ZipFileRO_close_table:
  "name_to_info (zf (snd (ZipFileRO_close w))) = name_to_info (zf w)"
  by (simp add: ZipFileRO_close_def ZipFileRO__close_def Let_def)

text \<open>C9, as the code has it: on an archive handle that was closed, \<open>open()\<close> raises the
  "already closed" \<open>ValueError\<close> and changes nothing, whatever it is asked to open;
  \<open>namelist()\<close>, \<open>infolist()\<close> and \<open>getinfo()\<close> make no such check and answer from the entry
  table exactly as they did before the close.\<close>

theorem closed_archive_operations:
  "ZipFileRO_open cs (snd (ZipFileRO_close w)) nm =
     (Inl (ValueError ''Attempt to use ZIP archive that was already closed''),
      snd (ZipFileRO_close w))
   \<and> namelist (snd (ZipFileRO_close w)) = namelist w
   \<and> infolist (snd (ZipFileRO_close w)) = infolist w
   \<and> getinfo (snd (ZipFileRO_close w)) n = getinfo w n"
proof -
  have "ZipFileRO_open cs (snd (ZipFileRO_close w)) nm =
     (Inl (ValueError ''Attempt to use ZIP archive that was already closed''),
      snd (ZipFileRO_close w))"
    using ZipFileRO_close_not_present [of w] by (simp add: ZipFileRO_open_def)
  then show ?thesis
    by (simp add: namelist_def infolist_def getinfo_def ZipFileRO_close_table)
qed

text \<open>C9 as stated fails: after \<open>close()\<close> on the example archive, \<open>namelist()\<close>,
  \<open>infolist()\<close> and \<open>getinfo("a.txt")\<close> all succeed.\<close>

theorem closed_archive_counterexample:
  "\<not> file_present (zf (snd (ZipFileRO_close small_world)))
   \<and> namelist (snd (ZipFileRO_close small_world)) = Inr [''a.txt'']
   \<and> infolist (snd (ZipFileRO_close small_world)) = Inr [small_info]
   \<and> getinfo (snd (ZipFileRO_close small_world)) ''a.txt'' = Inr small_info"
  by (simp add: ZipFileRO_close_def ZipFileRO__close_def Let_def small_world_def
      namelist_def infolist_def getinfo_def dict_get_def)

section \<open>Reference counting\<close>

text \<open>Two worlds that differ at most in the position of the shared file: the same archive
  handle, the same bytes, the same number of \<open>close()\<close> calls received.\<close>

definition same_archive :: "'n world \<Rightarrow> 'n world \<Rightarrow> bool" where
  "same_archive w w' =
     (zf w' = zf w \<and> content (fp w') = content (fp w)
      \<and> close_calls (fp w') = close_calls (fp w) \<and> can_seek (fp w') = can_seek (fp w))"

lemma same_archive_refl: "same_archive w w"
  by (simp add: same_archive_def)

lemma same_archive_trans: "same_archive w w1 \<Longrightarrow> same_archive w1 w2 \<Longrightarrow> same_archive w w2"
  by (simp add: same_archive_def)

lemma SharedFileRO_read_frame:
  assumes "SharedFileRO_read s w n = (res, s', w')"
  shows "same_archive w w' \<and> sf_file s' = sf_file s"
  using assms
  by (auto simp: SharedFileRO_read_def fseek_def fread_def ftell_def Let_def same_archive_def
      split: if_splits sum.splits prod.splits)

lemma SharedFileRO_seek_frame:
  assumes "SharedFileRO_seek s w off whence = (res, s', w')"
  shows "same_archive w w' \<and> sf_file s' = sf_file s"
  using assms
  by (auto simp: SharedFileRO_seek_def fseek_def ftell_def same_archive_def
      split: if_splits sum.splits)

lemma open_checks_frame:
  assumes "open_checks cs zinfo s w = (res, s', w')"
  shows "same_archive w w' \<and> sf_file s' = sf_file s"
proof -
  obtain r1 s1 w1 where rd1: "SharedFileRO_read s w FILE_HEADER_SIZE = (r1, s1, w1)"
    by (cases "SharedFileRO_read s w FILE_HEADER_SIZE") auto
  note f1 = SharedFileRO_read_frame [OF rd1]
  show ?thesis
  proof (cases r1)
    case (Inl e)
    with assms rd1 f1 show ?thesis by (simp add: open_checks_def)
  next
    case (Inr fheader)
    show ?thesis
    proof (cases "int (length fheader) \<noteq> FILE_HEADER_SIZE
        \<or> field fheader 0 4 \<noteq> FILE_HEADER_STRING")
      case True
      then have "w' = w1 \<and> s' = s1"
        using assms rd1 Inr by (auto simp: open_checks_def split: if_splits)
      with f1 show ?thesis by simp
    next
      case False
      obtain r2 s2 w2 where rd2: "SharedFileRO_read s1 w1 (le (field fheader 26 2)) = (r2, s2, w2)"
        by (cases "SharedFileRO_read s1 w1 (le (field fheader 26 2))") auto
      note f2 = SharedFileRO_read_frame [OF rd2]
      have chain: "same_archive w w2 \<and> sf_file s2 = sf_file s"
        using f1 f2 same_archive_trans by metis
      show ?thesis
      proof (cases r2)
        case (Inl e)
        with assms rd1 Inr False rd2 chain show ?thesis
          by (simp add: open_checks_def)
      next
        case fn: (Inr fname)
        obtain r3 s3 w3 where sk: "(if le (field fheader 28 2) \<noteq> 0
            then SharedFileRO_seek s2 w2 (le (field fheader 28 2)) 1
            else (Inr 0, s2, w2)) = (r3, s3, w3)"
          by (cases "(if le (field fheader 28 2) \<noteq> 0
            then SharedFileRO_seek s2 w2 (le (field fheader 28 2)) 1
            else (Inr 0, s2, w2))") auto
        have f3: "same_archive w2 w3 \<and> sf_file s3 = sf_file s2"
          using sk SharedFileRO_seek_frame [of s2 w2 "le (field fheader 28 2)" 1 r3 s3 w3]
          by (auto simp: same_archive_refl split: if_splits)
        have chain3: "same_archive w w3 \<and> sf_file s3 = sf_file s"
          using chain f3 same_archive_trans by metis
        have "w' = w3 \<and> s' = s3"
          using assms rd1 Inr False rd2 fn sk
          by (cases r3)
            (auto simp: open_checks_def split: if_splits option.splits sum.splits)
        with chain3 show ?thesis by simp
      qed
    qed
  qed
qed

text \<open>C5: take an open archive handle holding at least its own reference. When the name
  resolves to an entry and a check made after the reference count was incremented fails with
  an error \<open>e\<close> (truncated or badly signed local header, compressed-patch, strong-encryption
  or encrypted flag, name mismatch, undecodable name, no reader for an unseekable source),
  then at the failure the count is one above its value before the call, and \<open>open()\<close> raises
  that same \<open>e\<close> with the archive handle exactly as it was before the call: the shared file
  handle was released, the count is back, and the file was not closed. Only the position of
  the file has moved.\<close>

theorem open_failure_restores_ref_count:
  assumes "file_present (zf w)" and "0 < file_ref_count (zf w)"
    and "(case nm of Inr zi \<Rightarrow> Inr zi | Inl n \<Rightarrow> getinfo w n) = Inr zinfo"
    and "open_checks cs zinfo \<lparr>sf_file = True, sf_pos = header_offset zinfo\<rparr>
           (w\<lparr>zf := (zf w)\<lparr>file_ref_count := file_ref_count (zf w) + 1\<rparr>\<rparr>) = (Inl e, s, w2)"
  shows "file_ref_count (zf w2) = file_ref_count (zf w) + 1
    \<and> ZipFileRO_open cs w nm = (Inl e, w2\<lparr>zf := zf w\<rparr>)
    \<and> file_ref_count (zf (snd (ZipFileRO_open cs w nm))) = file_ref_count (zf w)
    \<and> close_calls (fp (snd (ZipFileRO_open cs w nm))) = close_calls (fp w)"
proof -
  let ?w1 = "w\<lparr>zf := (zf w)\<lparr>file_ref_count := file_ref_count (zf w) + 1\<rparr>\<rparr>"
  have fr: "same_archive ?w1 w2 \<and> sf_file s"
    using open_checks_frame [OF assms(4)] by simp
  then have z2: "zf w2 = (zf w)\<lparr>file_ref_count := file_ref_count (zf w) + 1\<rparr>"
    and cc: "close_calls (fp w2) = close_calls (fp w)"
    by (simp_all add: same_archive_def)
  have cl: "SharedFileRO_close s w2 = (Inr (), s\<lparr>sf_file := False\<rparr>, w2\<lparr>zf := zf w\<rparr>)"
    using fr z2 assms(2) by (simp add: SharedFileRO_close_def ZipFileRO__close_def Let_def)
  have op: "ZipFileRO_open cs w nm = (Inl e, w2\<lparr>zf := zf w\<rparr>)"
    using assms(1,3,4) cl by (simp add: ZipFileRO_open_def Let_def)
  show ?thesis
    using z2 op cc by simp
qed

text \<open>The theorem on the example archive: the directory entry is given the name \<open>b.txt\<close>,
  which the local header contradicts. The count is 1 before and after.\<close>

theorem open_failure_restores_ref_count_witness:
  "ZipFileRO_open ascii_codecs small_world (Inr (small_info\<lparr>filename := ''b.txt''\<rparr>)) =
     (Inl (BadZipFile ''File name in directory and header differ.''),
      small_world\<lparr>fp := small_file\<lparr>pos := 35\<rparr>\<rparr>)
   \<and> file_ref_count (zf (snd (ZipFileRO_open ascii_codecs small_world
         (Inr (small_info\<lparr>filename := ''b.txt''\<rparr>))))) = 1
   \<and> close_calls (fp (snd (ZipFileRO_open ascii_codecs small_world
         (Inr (small_info\<lparr>filename := ''b.txt''\<rparr>))))) = 0"
proof -
  let ?zi = "small_info\<lparr>filename := ''b.txt''\<rparr>"
  let ?w2 = "small_world\<lparr>zf := (zf small_world)\<lparr>file_ref_count := 2\<rparr>,
               fp := small_file\<lparr>pos := 35\<rparr>\<rparr>"
  have a1: "file_present (zf small_world)" and a2: "0 < file_ref_count (zf small_world)"
    by (simp_all add: small_world_def)
  have a3: "(case Inr ?zi of Inr zi \<Rightarrow> Inr zi | Inl n \<Rightarrow> getinfo small_world n) = Inr ?zi"
    by simp
  have a4: "open_checks ascii_codecs ?zi \<lparr>sf_file = True, sf_pos = header_offset ?zi\<rparr>
      (small_world\<lparr>zf := (zf small_world)
         \<lparr>file_ref_count := file_ref_count (zf small_world) + 1\<rparr>\<rparr>) =
      (Inl (BadZipFile ''File name in directory and header differ.''),
       \<lparr>sf_file = True, sf_pos = 35\<rparr>, ?w2)"
    by code_simp
  have w2: "?w2\<lparr>zf := zf small_world\<rparr> = small_world\<lparr>fp := small_file\<lparr>pos := 35\<rparr>\<rparr>"
    by (simp add: small_world_def)
  show ?thesis
    using open_failure_restores_ref_count [OF a1 a2 a3 a4] w2
    by (simp add: small_world_def small_file_def)
qed

text \<open>What no read and no seek changes in a reader: whether its shared file handle still
  holds the file, and that closing the reader closes that handle.\<close>

definition same_handle :: "'n ZipFilePartRO \<Rightarrow> 'n ZipFilePartRO \<Rightarrow> bool" where
  "same_handle r r' =
     (sf_file (fileobj r') = sf_file (fileobj r) \<and> close_fileobj r' = close_fileobj r)"

lemma read2_frame:
  assumes "read2 r w n = (res, r', w')"
  shows "same_archive w w' \<and> same_handle r r'"
proof (cases "compress_left r \<le> 0")
  case True
  with assms show ?thesis
    by (simp add: read2_def same_archive_refl same_handle_def)
next
  case False
  obtain x s w1 where rd: "SharedFileRO_read (fileobj r) w
      (min (max n MIN_READ_SIZE) (compress_left r)) = (x, s, w1)"
    by (cases "SharedFileRO_read (fileobj r) w (min (max n MIN_READ_SIZE) (compress_left r))")
      auto
  note f = SharedFileRO_read_frame [OF rd]
  have "w' = w1 \<and> sf_file (fileobj r') = sf_file s \<and> close_fileobj r' = close_fileobj r"
    using assms False rd by (cases x) (auto simp: read2_def Let_def split: if_splits)
  with f show ?thesis by (simp add: same_handle_def)
qed

lemma read1_frame:
  assumes "read1 r w n = (res, r', w')"
  shows "same_archive w w' \<and> same_handle r r'"
proof (cases "eof r \<or> n \<le> 0")
  case True
  with assms show ?thesis
    by (auto simp: read1_def same_archive_refl same_handle_def)
next
  case False
  obtain x r1 w1 where rd: "read2 r w n = (x, r1, w1)"
    by (cases "read2 r w n") auto
  note f = read2_frame [OF rd]
  have "w' = w1 \<and> sf_file (fileobj r') = sf_file (fileobj r1)
      \<and> close_fileobj r' = close_fileobj r1"
    using assms False rd by (cases x) (auto simp: read1_def Let_def split: if_splits)
  with f show ?thesis by (simp add: same_handle_def)
qed

lemma same_handle_trans: "same_handle r r1 \<Longrightarrow> same_handle r1 r2 \<Longrightarrow> same_handle r r2"
  by (simp add: same_handle_def)

lemma read_all_loop_frame:
  "read_all_loop r w buf = (res, r', w') \<Longrightarrow> same_archive w w' \<and> same_handle r r'"
proof (induction r w buf rule: read_all_loop.induct)
  case (1 r w buf)
  show ?case
  proof (cases "eof r")
    case True
    with "1.prems" show ?thesis
      by (simp add: read_all_loop.simps [of r w buf] same_archive_refl same_handle_def)
  next
    case False
    obtain x r1 w1 where rd: "read1 r w MAX_N = (x, r1, w1)"
      by (cases "read1 r w MAX_N") auto
    note f = read1_frame [OF rd]
    show ?thesis
    proof (cases x)
      case (Inl e)
      with "1.prems" False rd f show ?thesis
        by (simp add: read_all_loop.simps [of r w buf])
    next
      case (Inr data)
      with "1.prems" False rd
      have "read_all_loop r1 w1 (buf @ data) = (res, r', w')"
        by (simp add: read_all_loop.simps [of r w buf])
      then have "same_archive w1 w' \<and> same_handle r1 r'"
        by (rule "1.IH" [OF False rd [symmetric] Inr refl])
      with f show ?thesis
        using same_archive_trans same_handle_trans by blast
    qed
  qed
qed

lemma read_loop_frame:
  "read_loop r w n buf = (res, r', w') \<Longrightarrow> same_archive w w' \<and> same_handle r r'"
proof (induction r w n buf rule: read_loop.induct)
  case (1 r w n buf)
  show ?case
  proof (cases "n > 0 \<and> \<not> eof r")
    case False
    with "1.prems" show ?thesis
      by (auto simp: read_loop.simps [of r w n buf] same_archive_refl same_handle_def)
  next
    case True
    obtain x r1 w1 where rd: "read1 r w n = (x, r1, w1)"
      by (cases "read1 r w n") auto
    note f = read1_frame [OF rd]
    show ?thesis
    proof (cases x)
      case (Inl e)
      with "1.prems" True rd f show ?thesis
        by (simp add: read_loop.simps [of r w n buf])
    next
      case (Inr data)
      show ?thesis
      proof (cases "n < int (length data)")
        case short: True
        with "1.prems" True rd Inr
        have "w' = w1 \<and> r' = r1\<lparr>readbuffer := data, offset := n\<rparr>"
          by (simp add: read_loop.simps [of r w n buf])
        with f show ?thesis by (simp add: same_handle_def)
      next
        case long: False
        with "1.prems" True rd Inr
        have "read_loop r1 w1 (n - int (length data)) (buf @ data) = (res, r', w')"
          by (simp add: read_loop.simps [of r w n buf])
        then have "same_archive w1 w' \<and> same_handle r1 r'"
          by (rule "1.IH" [OF True rd [symmetric] Inr refl long])
        with f show ?thesis
          using same_archive_trans same_handle_trans by blast
      qed
    qed
  qed
qed

lemma ZipFilePartRO_read_frame:
  assumes "ZipFilePartRO_read r w n = (res, r', w')"
  shows "same_archive w w' \<and> same_handle r r'"
proof -
  let ?r0 = "r\<lparr>readbuffer := [], offset := 0\<rparr>"
  have h0: "same_handle r ?r0" by (simp add: same_handle_def)
  consider (c) "closed r" | (all) "\<not> closed r" "n < 0"
    | (buf) "\<not> closed r" "\<not> n < 0" "n + offset r < int (length (readbuffer r))"
    | (loop) "\<not> closed r" "\<not> n < 0" "\<not> n + offset r < int (length (readbuffer r))"
    by blast
  then show ?thesis
  proof cases
    case c
    with assms show ?thesis
      by (simp add: ZipFilePartRO_read_def same_archive_refl same_handle_def)
  next
    case all
    with assms have "read_all_loop ?r0 w (slice_from (readbuffer r) (offset r)) = (res, r', w')"
      by (simp add: ZipFilePartRO_read_def)
    from read_all_loop_frame [OF this] h0 show ?thesis
      using same_handle_trans by blast
  next
    case buf
    with assms show ?thesis
      by (auto simp: ZipFilePartRO_read_def Let_def same_archive_refl same_handle_def)
  next
    case loop
    with assms have "read_loop ?r0 w (n + offset r - int (length (readbuffer r)))
        (slice_from (readbuffer r) (offset r)) = (res, r', w')"
      by (simp add: ZipFilePartRO_read_def Let_def)
    from read_loop_frame [OF this] h0 show ?thesis
      using same_handle_trans by blast
  qed
qed

lemma seek_loop_frame:
  "seek_loop r w ro = (res, r', w') \<Longrightarrow> same_archive w w' \<and> same_handle r r'"
proof (induction r w ro rule: seek_loop.induct)
  case (1 r w ro)
  show ?case
  proof (cases "ro > 0")
    case False
    with "1.prems" show ?thesis
      by (simp add: seek_loop.simps [of r w ro] same_archive_refl same_handle_def)
  next
    case True
    obtain x r1 w1 where rd: "ZipFilePartRO_read r w (min MAX_SEEK_READ ro) = (x, r1, w1)"
      by (cases "ZipFilePartRO_read r w (min MAX_SEEK_READ ro)") auto
    note f = ZipFilePartRO_read_frame [OF rd]
    show ?thesis
    proof (cases x)
      case (Inl e)
      with "1.prems" True rd f show ?thesis
        by (simp add: seek_loop.simps [of r w ro] Let_def)
    next
      case (Inr data)
      with "1.prems" True rd
      have "seek_loop r1 w1 (ro - min MAX_SEEK_READ ro) = (res, r', w')"
        by (simp add: seek_loop.simps [of r w ro] Let_def)
      then have "same_archive w1 w' \<and> same_handle r1 r'"
        by (rule "1.IH" [OF True refl rd [symmetric] Inr refl])
      with f show ?thesis
        using same_archive_trans same_handle_trans by blast
    qed
  qed
qed

lemma ZipFilePartRO_seek_frame:
  assumes "ZipFilePartRO_seek r w off whence = (res, r', w')"
  shows "same_archive w w' \<and> same_handle r r'"
proof -
  have loop: "same_archive w w' \<and> same_handle r r'"
    if "seek_loop r0 w0 k = (res, r', w')" and "same_handle r r0" and "same_archive w w0"
    for r0 w0 k
    using seek_loop_frame [OF that(1)] that(2,3) same_handle_trans same_archive_trans
    by blast
  have sk: "same_archive w w' \<and> same_handle r r'"
    if s1: "SharedFileRO_seek (fileobj r) w a b = (x, s, w1)"
      and s2: "(case x of Inl e \<Rightarrow> (Inl e, r\<lparr>fileobj := s\<rparr>, w1)
            | Inr p \<Rightarrow> seek_loop r0 w1 k) = (res, r', w')"
      and s3: "fileobj r0 = s \<and> close_fileobj r0 = close_fileobj r"
    for a b x s w1 r0 k
  proof (cases x)
    case (Inl e)
    with s2 SharedFileRO_seek_frame [OF s1] show ?thesis
      by (auto simp: same_handle_def)
  next
    case (Inr p)
    with s2 have "seek_loop r0 w1 k = (res, r', w')" by simp
    moreover have "same_handle r r0"
      using SharedFileRO_seek_frame [OF s1] s3 by (simp add: same_handle_def)
    ultimately show ?thesis
      using loop SharedFileRO_seek_frame [OF s1] by blast
  qed
  define curr_pos where "curr_pos = filepos r"
  define new_pos0 where "new_pos0 = (if whence = 0 then off
      else if whence = 1 then curr_pos + off else orig_file_size r + off)"
  define new_pos1 where
    "new_pos1 = (if new_pos0 > orig_file_size r then orig_file_size r else new_pos0)"
  define new_pos where "new_pos = (if new_pos1 < 0 then 0 else new_pos1)"
  define read_offset where "read_offset = new_pos - curr_pos"
  define buff_offset where "buff_offset = read_offset + offset r"
  define bad where "bad = (whence \<noteq> 0 \<and> whence \<noteq> 1 \<and> whence \<noteq> 2)"
  define inb where "inb = (buff_offset \<ge> 0 \<and> buff_offset < int (length (readbuffer r)))"
  note defs = curr_pos_def new_pos0_def new_pos1_def new_pos_def read_offset_def
    buff_offset_def bad_def inb_def
  have eq: "ZipFilePartRO_seek r w off whence =
     (if closed r then (Inl (ValueError ''seek on closed file.''), r, w)
      else if \<not> seekable r then (Inl UnsupportedOperation, r, w)
      else if bad then
        (Inl (ValueError ''whence must be os.SEEK_SET (0), os.SEEK_CUR (1), or os.SEEK_END (2)''),
         r, w)
      else if inb then
        seek_loop (r\<lparr>offset := buff_offset\<rparr>) w 0
      else
        (case compress_type r of
               None \<Rightarrow> (Inl AttributeError, r, w)
             | Some ct \<Rightarrow>
                 if ct = ZIP_STORED \<and> read_offset > 0 then
                   (case SharedFileRO_seek (fileobj r) w
                       (read_offset - (int (length (readbuffer r)) - offset r)) 1 of
                      (Inl e, s, w1) \<Rightarrow> (Inl e, r\<lparr>fileobj := s\<rparr>, w1)
                    | (Inr p, s, w1) \<Rightarrow>
                        seek_loop
                          (r\<lparr>fileobj := s,
                             left := left r
                               - (read_offset - (int (length (readbuffer r)) - offset r)),
                             readbuffer := [], offset := 0\<rparr>) w1 0)
                 else if read_offset < 0 then
                   (case SharedFileRO_seek (fileobj r) w (orig_compress_start r) 0 of
                      (Inl e, s, w1) \<Rightarrow> (Inl e, r\<lparr>fileobj := s\<rparr>, w1)
                    | (Inr p, s, w1) \<Rightarrow>
                        seek_loop
                          (r\<lparr>fileobj := s, compress_left := orig_compress_size r,
                             left := orig_file_size r, readbuffer := [], offset := 0,
                             eof := False\<rparr>) w1 new_pos)
                 else seek_loop r w read_offset))"
    unfolding ZipFilePartRO_seek_def Let_def defs by (rule refl)
  consider (err) "closed r \<or> \<not> seekable r \<or> bad"
    | (inbuf) "\<not> closed r" "seekable r" "\<not> bad" "inb"
    | (out) "\<not> closed r" "seekable r" "\<not> bad" "\<not> inb"
    by blast
  then show ?thesis
  proof cases
    case err
    then have "r' = r \<and> w' = w"
      using assms eq by (auto split: if_splits)
    then show ?thesis by (simp add: same_archive_refl same_handle_def)
  next
    case inbuf
    then have "ZipFilePartRO_seek r w off whence = seek_loop (r\<lparr>offset := buff_offset\<rparr>) w 0"
      using eq by simp
    with assms have "seek_loop (r\<lparr>offset := buff_offset\<rparr>) w 0 = (res, r', w')"
      by simp
    then show ?thesis
      by (rule loop) (simp_all add: same_handle_def same_archive_refl)
  next
    case out
    show ?thesis
    proof (cases "compress_type r")
      case None
      then have "ZipFilePartRO_seek r w off whence = (Inl AttributeError, r, w)"
        using eq out by simp
      with assms show ?thesis by (simp add: same_archive_refl same_handle_def)
    next
      case (Some ct)
      consider (fast) "ct = ZIP_STORED" "read_offset > 0"
        | (bwd) "(ct = ZIP_STORED \<and> read_offset > 0) = False" "read_offset < 0"
        | (fwd) "(ct = ZIP_STORED \<and> read_offset > 0) = False" "\<not> read_offset < 0"
        by blast
      then show ?thesis
      proof cases
        case fast
        obtain x s w1 where s1: "SharedFileRO_seek (fileobj r) w
            (read_offset - (int (length (readbuffer r)) - offset r)) 1 = (x, s, w1)"
          by (cases "SharedFileRO_seek (fileobj r) w
            (read_offset - (int (length (readbuffer r)) - offset r)) 1") auto
        have "ZipFilePartRO_seek r w off whence =
           (case x of Inl e \<Rightarrow> (Inl e, r\<lparr>fileobj := s\<rparr>, w1)
            | Inr p \<Rightarrow>
                seek_loop
                  (r\<lparr>fileobj := s,
                     left := left r - (read_offset - (int (length (readbuffer r)) - offset r)),
                     readbuffer := [], offset := 0\<rparr>) w1 0)"
          using eq out Some fast s1 by (cases x) simp_all
        with assms have e2: "\<dots> = (res, r', w')"
          by simp
        show ?thesis
          by (rule sk [OF s1 e2]) simp
      next
        case bwd
        obtain x s w1 where s1:
          "SharedFileRO_seek (fileobj r) w (orig_compress_start r) 0 = (x, s, w1)"
          by (cases "SharedFileRO_seek (fileobj r) w (orig_compress_start r) 0") auto
        have "ZipFilePartRO_seek r w off whence =
           (case x of Inl e \<Rightarrow> (Inl e, r\<lparr>fileobj := s\<rparr>, w1)
            | Inr p \<Rightarrow>
                seek_loop
                  (r\<lparr>fileobj := s, compress_left := orig_compress_size r,
                     left := orig_file_size r, readbuffer := [], offset := 0,
                     eof := False\<rparr>) w1 new_pos)"
          using eq out Some bwd(2) s1 by (cases x) (simp_all add: bwd(1))
        with assms have e2: "\<dots> = (res, r', w')"
          by simp
        show ?thesis
          by (rule sk [OF s1 e2]) simp
      next
        case fwd
        have "ZipFilePartRO_seek r w off whence = seek_loop r w read_offset"
          using eq out Some fwd(2) by (simp add: fwd(1))
        with assms have "seek_loop r w read_offset = (res, r', w')"
          by simp
        then show ?thesis
          by (rule loop) (simp_all add: same_handle_def same_archive_refl)
      qed
    qed
  qed
qed

text \<open>Two states of the byte source that differ at most in the position.\<close>

definition same_file :: "bfile \<Rightarrow> bfile \<Rightarrow> bool" where
  "same_file f f' =
     (content f' = content f \<and> close_calls f' = close_calls f \<and> can_seek f' = can_seek f)"

lemma fseek_frame: "fseek f off whence = Inr f' \<Longrightarrow> same_file f f'"
  by (auto simp: fseek_def same_file_def split: if_splits)

lemma fread_frame: "fread f n = (data, f') \<Longrightarrow> same_file f f'"
  by (auto simp: fread_def same_file_def Let_def)

lemma same_file_refl: "same_file f f"
  by (simp add: same_file_def)

lemma same_file_trans: "same_file f f1 \<Longrightarrow> same_file f1 f2 \<Longrightarrow> same_file f f2"
  by (simp add: same_file_def)

lemma end_archive_update_zip64_frame:
  "end_archive_update_zip64 f off er = (r, f') \<Longrightarrow> same_file f f'"
  unfolding end_archive_update_zip64_def
  by (auto simp: Let_def same_file_refl split: sum.splits prod.splits if_splits
      dest!: fseek_frame fread_frame intro: same_file_trans)


lemma return_endrec_frame: "return_endrec x = (r, f') \<Longrightarrow> snd x = f'"
  by (auto simp: return_endrec_def split: prod.splits sum.splits)

lemma extract_end_archive_scan_frame:
  assumes "extract_end_archive_scan f filesize = (r, f')"
  shows "same_file f f'"
proof (cases "fseek f (max (filesize - 65536 - END_ARCHIVE_SIZE) 0) 0")
  case (Inl e)
  with assms show ?thesis
    by (simp add: extract_end_archive_scan_def Let_def same_file_refl)
next
  case (Inr f1)
  obtain data f2 where rd: "fread f1 (-1) = (data, f2)"
    by (cases "fread f1 (-1)") auto
  have f2: "same_file f f2"
    using fseek_frame [OF Inr] fread_frame [OF rd] same_file_trans by blast
  show ?thesis
  proof (cases "f' = f2")
    case True
    with f2 show ?thesis by simp
  next
    case False
    with assms Inr rd obtain off er where
      "return_endrec (end_archive_update_zip64 f2 off er) = (r, f')"
      by (auto simp: extract_end_archive_scan_def Let_def split: if_splits)
    then have "snd (end_archive_update_zip64 f2 off er) = f'"
      by (rule return_endrec_frame)
    then have "same_file f2 f'"
      using end_archive_update_zip64_frame [of f2 off er] by (metis prod.collapse)
    with f2 show ?thesis
      using same_file_trans by blast
  qed
qed

lemma extract_end_archive_frame:
  assumes "extract_end_archive f = (r, f')"
  shows "same_file f f'"
proof (cases "fseek f 0 2")
  case (Inl e)
  with assms show ?thesis
    by (simp add: extract_end_archive_def same_file_refl)
next
  case f0: (Inr f0)
  note s0 = fseek_frame [OF f0]
  show ?thesis
  proof (cases "fseek f0 (- END_ARCHIVE_SIZE) 2")
    case (Inl e)
    with assms f0 have "f' = f0"
      by (auto simp: extract_end_archive_def Let_def split: if_splits)
    with s0 show ?thesis by simp
  next
    case (Inr f1)
    obtain data f2 where rd: "fread f1 (-1) = (data, f2)"
      by (cases "fread f1 (-1)") auto
    have f2: "same_file f f2"
      using s0 fseek_frame [OF Inr] fread_frame [OF rd] same_file_trans by blast
    consider (fast) er where "return_endrec (end_archive_update_zip64 f2 (- END_ARCHIVE_SIZE) er) = (r, f')"
      | (scan) "extract_end_archive_scan f2 (ftell f0) = (r, f')"
      using assms f0 Inr rd
      by (auto simp: extract_end_archive_def Let_def split: if_splits)
    then show ?thesis
    proof cases
      case fast
      then have "snd (end_archive_update_zip64 f2 (- END_ARCHIVE_SIZE) er) = f'"
        by (rule return_endrec_frame)
      then have "same_file f2 f'"
        using end_archive_update_zip64_frame [of f2 "- END_ARCHIVE_SIZE" er]
        by (metis prod.collapse)
      with f2 show ?thesis using same_file_trans by blast
    next
      case scan
      from extract_end_archive_scan_frame [OF this] f2 show ?thesis
        using same_file_trans by blast
    qed
  qed
qed

lemma read_contents_frame:
  assumes "read_contents cs w = (r, w1)"
  shows "same_file (fp w) (fp w1) \<and> file_passed (zf w1) = file_passed (zf w)
    \<and> file_present (zf w1) = file_present (zf w)
    \<and> file_ref_count (zf w1) = file_ref_count (zf w)"
proof -
  obtain x f1 where ex: "extract_end_archive (fp w) = (x, f1)"
    by (cases "extract_end_archive (fp w)") auto
  note s1 = extract_end_archive_frame [OF ex]
  show ?thesis
  proof (cases x)
    case (Inl e)
    with assms ex s1 show ?thesis
      by (auto simp: read_contents_def)
  next
    case (Inr o1)
    show ?thesis
    proof (cases o1)
      case None
      with assms ex s1 Inr show ?thesis
        by (auto simp: read_contents_def)
    next
      case (Some er)
      have "(same_file f1 (fp w1) \<or> fp w1 = f1) \<and> file_passed (zf w1) = file_passed (zf w)
        \<and> file_present (zf w1) = file_present (zf w)
        \<and> file_ref_count (zf w1) = file_ref_count (zf w)"
        using assms ex Inr Some
        by (auto simp: read_contents_def Let_def same_file_def fseek_def fread_def
            split: if_splits sum.splits prod.splits)
      with s1 show ?thesis
        using same_file_trans by blast
    qed
  qed
qed

text \<open>A client of one archive: the world, and the entry readers \<open>open()\<close> has issued so
  far, in order. An event is one call of the client: \<open>open\<close>, a \<open>read\<close>, \<open>seek\<close> or \<open>close\<close>
  on the reader of a given index, or \<open>close\<close> on the archive handle (which is also what
  \<open>__del__\<close> and \<open>__exit__\<close> do).\<close>

datatype 'n event =
    Open "'n + 'n ZipInfoRO"
  | Read nat int
  | Seek nat int int
  | CloseReader nat
  | CloseArchive

record 'n system =
  sys_world :: "'n world"
  sys_readers :: "'n ZipFilePartRO list"

fun step :: "'n codecs \<Rightarrow> 'n system \<Rightarrow> 'n event \<Rightarrow> 'n system" where
  "step cs s (Open nm) =
     (case ZipFileRO_open cs (sys_world s) nm of
        (Inr r, w') \<Rightarrow> s\<lparr>sys_world := w', sys_readers := sys_readers s @ [r]\<rparr>
      | (Inl e, w') \<Rightarrow> s\<lparr>sys_world := w'\<rparr>)"
| "step cs s (Read i n) =
     (if i < length (sys_readers s) then
        (case ZipFilePartRO_read (sys_readers s ! i) (sys_world s) n of
           (res, r', w') \<Rightarrow> s\<lparr>sys_world := w', sys_readers := (sys_readers s)[i := r']\<rparr>)
      else s)"
| "step cs s (Seek i off whence) =
     (if i < length (sys_readers s) then
        (case ZipFilePartRO_seek (sys_readers s ! i) (sys_world s) off whence of
           (res, r', w') \<Rightarrow> s\<lparr>sys_world := w', sys_readers := (sys_readers s)[i := r']\<rparr>)
      else s)"
| "step cs s (CloseReader i) =
     (if i < length (sys_readers s) then
        (case ZipFilePartRO_close (sys_readers s ! i) (sys_world s) of
           (res, r', w') \<Rightarrow> s\<lparr>sys_world := w', sys_readers := (sys_readers s)[i := r']\<rparr>)
      else s)"
| "step cs s CloseArchive = s\<lparr>sys_world := snd (ZipFileRO_close (sys_world s))\<rparr>"

definition run :: "'n codecs \<Rightarrow> 'n system \<Rightarrow> 'n event list \<Rightarrow> 'n system" where
  "run cs s es = foldl (step cs) s es"

text \<open>The references held on the file: one by the archive handle until it is closed, one by
  every issued reader whose shared file handle has not been closed.\<close>

definition live :: "'n ZipFilePartRO list \<Rightarrow> nat" where
  "live rs = length (filter (\<lambda>r. sf_file (fileobj r)) rs)"

definition holders :: "'n system \<Rightarrow> int" where
  "holders s =
     (if file_present (zf (sys_world s)) then 1 else 0) + int (live (sys_readers s))"

end
